theory Spec2Isabelle
  imports Complex_Main
begin

section \<open>Countdown timer (\<open>CountdownTimer\<close>, page.tsx lines 54-81)\<close>

text \<open>
  \<open>Date.getTime()\<close> of a valid date is an integer number of milliseconds, so instants
  are \<open>int\<close>. The arithmetic on \<open>difference\<close> is JavaScript number arithmetic; it is
  modelled over \<open>real\<close>, that is, with exact quotients. (With a clock that reads a
  time after 1970 the difference is below \<open>2 ^ 41\<close> ms; there a non-integer quotient by
  1000, 60000, 3600000 or 86400000 is further from the next integer than the rounding
  error of a double, and \<open>%\<close> is exact, so \<open>Math.floor\<close> of the double and of the exact
  value agree.)
\<close>

record timeLeft =
  days :: int
  hours :: int
  minutes :: int
  seconds :: int

definition js_trunc :: "real \<Rightarrow> int" where
  \<comment> \<open>rounding towards zero, as in the quotient of JavaScript's \<open>%\<close>\<close>
  "js_trunc q = (if 0 \<le> q then \<lfloor>q\<rfloor> else \<lceil>q\<rceil>)"

definition js_rem :: "real \<Rightarrow> real \<Rightarrow> real" where
  \<comment> \<open>JavaScript \<open>x % y\<close> for finite \<open>x\<close> and finite non-zero \<open>y\<close>:
      the remainder has the sign of the dividend\<close>
  "js_rem x y = x - y * of_int (js_trunc (x / y))"

definition Math_floor :: "real \<Rightarrow> int" where
  "Math_floor x = \<lfloor>x\<rfloor>"

definition initialTimeLeft :: timeLeft where
  \<comment> \<open>the argument of \<open>useState\<close>, lines 55-60\<close>
  "initialTimeLeft = \<lparr>days = 0, hours = 0, minutes = 0, seconds = 0\<rparr>"

definition calculateTimeLeft :: "int \<Rightarrow> int \<Rightarrow> timeLeft \<Rightarrow> timeLeft" where
  \<comment> \<open>lines 63-75; \<open>launchDate\<close> and \<open>now\<close> are the two \<open>getTime()\<close> values, the third
      argument is the component state, which \<open>setTimeLeft\<close> replaces only when
      \<open>difference > 0\<close>\<close>
  "calculateTimeLeft launchDate now st =
     (let difference = launchDate - now in
      if difference > 0 then
        \<lparr>days = Math_floor (of_int difference / (1000 * 60 * 60 * 24)),
         hours = Math_floor (js_rem (of_int difference / (1000 * 60 * 60)) 24),
         minutes = Math_floor (js_rem (of_int difference / 1000 / 60) 60),
         seconds = Math_floor (js_rem (of_int difference / 1000) 60)\<rparr>
      else st)"

definition launchDate_ms :: int where
  \<comment> \<open>\<open>Date.UTC(2025, 5, 27, 6, 0, 0)\<close>, line 171: 27 June 2025 06:00:00 UTC is
      20266 days and 6 hours after the epoch\<close>
  "launchDate_ms = 20266 * 86400000 + 6 * 3600000"

fun ticks :: "int \<Rightarrow> int list \<Rightarrow> timeLeft \<Rightarrow> timeLeft" where
  \<comment> \<open>lines 77-78: \<open>calculateTimeLeft\<close> runs at mount and at every interval tick; the
      list holds the clock readings of the successive runs\<close>
  "ticks launchDate [] st = st"
| "ticks launchDate (now # later) st = ticks launchDate later (calculateTimeLeft launchDate now st)"

definition CountdownTimer :: "int \<Rightarrow> int list \<Rightarrow> timeLeft" where
  \<comment> \<open>the state the component renders after the given runs of \<open>calculateTimeLeft\<close>\<close>
  "CountdownTimer launchDate nows = ticks launchDate nows initialTimeLeft"

definition nonNegative :: "timeLeft \<Rightarrow> bool" where
  "nonNegative t = (0 \<le> days t \<and> 0 \<le> hours t \<and> 0 \<le> minutes t \<and> 0 \<le> seconds t)"

section \<open>Waitlist submission (\<open>addToWaitlist\<close>, \<open>handleWaitlistSubmit\<close>)\<close>

subsection \<open>JavaScript values\<close>

datatype jsval =
    JUndefined
  | JNull
  | JBool bool
  | JNum int
  | JStr string
  | JArr "jsval list"
  | JObj "(string \<times> jsval) list"

text \<open>
  \<open>JNum\<close> holds the integer-valued numbers only. \<open>JObj\<close> is a parsed object: a key is
  looked up with \<open>map_of\<close>.
\<close>

fun truthy :: "jsval \<Rightarrow> bool" where
  "truthy JUndefined = False"
| "truthy JNull = False"
| "truthy (JBool b) = b"
| "truthy (JNum n) = (n \<noteq> 0)"
| "truthy (JStr s) = (s \<noteq> [])"
| "truthy (JArr xs) = True"
| "truthy (JObj fs) = True"

fun digits :: "nat \<Rightarrow> string" where
  "digits n = (if n < 10 then [char_of (48 + n)] else digits (n div 10) @ [char_of (48 + n mod 10)])"

fun join_comma :: "string list \<Rightarrow> string" where
  "join_comma [] = []"
| "join_comma [x] = x"
| "join_comma (x # y # rest) = x @ '','' @ join_comma (y # rest)"

fun ToString :: "jsval \<Rightarrow> string" where
  \<comment> \<open>the message of \<open>new Error(v)\<close> for a defined \<open>v\<close> is \<open>String(v)\<close>\<close>
  "ToString JUndefined = ''undefined''"
| "ToString JNull = ''null''"
| "ToString (JBool b) = (if b then ''true'' else ''false'')"
| "ToString (JNum n) = (if n < 0 then CHR ''-'' # digits (nat (- n)) else digits (nat n))"
| "ToString (JStr s) = s"
| "ToString (JArr xs) =
     join_comma (map (\<lambda>x. if x = JNull \<or> x = JUndefined then [] else ToString x) xs)"
| "ToString (JObj fs) = ''[object Object]''"

datatype thrown =
    AxiosError string "jsval option"
  | Error string
  | TypeError string
  | NonError jsval

text \<open>
  \<open>AxiosError m r\<close> is what a rejected \<open>api.post\<close> carries: \<open>r = Some d\<close> when the server
  answered (\<open>error.response\<close> is set and \<open>d\<close> is \<open>error.response.data\<close>), \<open>r = None\<close>
  when no response arrived. \<open>NonError\<close> is any thrown value that is not an \<open>Error\<close>.
\<close>

fun instanceof_Error :: "thrown \<Rightarrow> bool" where
  "instanceof_Error (NonError v) = False"
| "instanceof_Error e = True"

fun message :: "thrown \<Rightarrow> string" where
  "message (AxiosError m r) = m"
| "message (Error m) = m"
| "message (TypeError m) = m"
| "message (NonError v) = []"

fun isAxiosError :: "thrown \<Rightarrow> bool" where
  "isAxiosError (AxiosError m r) = True"
| "isAxiosError e = False"

fun response :: "thrown \<Rightarrow> jsval option" where
  "response (AxiosError m r) = r"
| "response e = None"

definition get_message :: "jsval \<Rightarrow> thrown + jsval" where
  \<comment> \<open>the property read \<open>data.message\<close>: reading a property of \<open>null\<close> or \<open>undefined\<close>
      throws a \<open>TypeError\<close> (the texts are V8's); a missing property, and any property
      of this name on a primitive or an array, is \<open>undefined\<close>\<close>
  "get_message data =
     (case data of
        JNull \<Rightarrow> Inl (TypeError ''Cannot read properties of null (reading 'message')'')
      | JUndefined \<Rightarrow> Inl (TypeError ''Cannot read properties of undefined (reading 'message')'')
      | JObj fs \<Rightarrow> (case map_of fs ''message'' of None \<Rightarrow> Inr JUndefined | Some v \<Rightarrow> Inr v)
      | _ \<Rightarrow> Inr JUndefined)"

subsection \<open>The page: component state, notifications, network\<close>

record http_request =
  verb :: string
  baseURL :: "string option"
  url :: string
  headers :: "(string \<times> string) list"
  body :: jsval

datatype toast_kind = success | error

record toast =
  kind :: toast_kind
  title :: string
  description :: string

record page =
  isSubmitting :: bool
  name :: string
  email :: string
  restaurantName :: string
  subscribed :: bool
  toasts :: "toast list"
  requests :: "http_request list"
  pending :: "http_request list"

text \<open>
  The first five fields are the \<open>useState\<close> cells of \<open>PreLaunchClient\<close> (lines 164-169).
  \<open>toasts\<close> are the notifications shown so far, \<open>requests\<close> every request \<open>api.post\<close>
  has sent, \<open>pending\<close> the requests whose promise has not settled yet.
\<close>

definition initialPage :: page where
  "initialPage = \<lparr>isSubmitting = False, name = [], email = [], restaurantName = [],
     subscribed = False, toasts = [], requests = [], pending = []\<rparr>"

definition JSON_members :: "jsval \<Rightarrow> (string \<times> jsval) list" where
  \<comment> \<open>the members \<open>JSON.stringify\<close> writes for a request body: a property whose value is
      \<open>undefined\<close> is left out\<close>
  "JSON_members v = (case v of JObj fs \<Rightarrow> filter (\<lambda>(k, x). x \<noteq> JUndefined) fs | _ \<Rightarrow> [])"

definition api_post :: "string option \<Rightarrow> string \<Rightarrow> jsval \<Rightarrow> page \<Rightarrow> page" where
  \<comment> \<open>\<open>api.post(url, data)\<close> on the instance of lines 28-34, whose \<open>baseURL\<close> is the
      environment's \<open>NEXT_PUBLIC_BACKEND_API_URL\<close> (the first argument): one request is
      sent and its promise is pending\<close>
  "api_post API_URL u data w =
     (let req = \<lparr>verb = ''POST'', baseURL = API_URL, url = u,
                 headers = [(''Content-Type'', ''application/json'')], body = data\<rparr>
      in w\<lparr>requests := requests w @ [req], pending := pending w @ [req]\<rparr>)"

definition waitlist_body :: "string \<Rightarrow> string \<Rightarrow> string option \<Rightarrow> jsval" where
  \<comment> \<open>the object literal of lines 38-42; \<open>data.restaurantName\<close> is optional\<close>
  "waitlist_body e n r =
     JObj [(''email'', JStr e), (''name'', JStr n),
           (''restaurantName'', (case r of None \<Rightarrow> JUndefined | Some s \<Rightarrow> JStr s))]"

definition addToWaitlist_send :: "string option \<Rightarrow> string \<Rightarrow> string \<Rightarrow> string option \<Rightarrow> page \<Rightarrow> page" where
  \<comment> \<open>\<open>addToWaitlist\<close> up to its \<open>await\<close> (line 38)\<close>
  "addToWaitlist_send API_URL e n r w = api_post API_URL ''/auth/wait-list'' (waitlist_body e n r) w"

definition addToWaitlist_settled :: "thrown + jsval \<Rightarrow> thrown + jsval" where
  \<comment> \<open>\<open>addToWaitlist\<close> from the \<open>await\<close> on (lines 43-50); the argument is how the
      promise of \<open>api.post\<close> settled: \<open>Inr d\<close> a response with data \<open>d\<close>, \<open>Inl e\<close> a
      rejection with \<open>e\<close>\<close>
  "addToWaitlist_settled outcome =
     (case outcome of
        Inr response_data \<Rightarrow> Inr response_data
      | Inl err \<Rightarrow>
          (if isAxiosError err \<and> response err \<noteq> None then
             (case get_message (the (response err)) of
                Inl type_error \<Rightarrow> Inl type_error
              | Inr m \<Rightarrow>
                  Inl (Error (ToString (if truthy m then m else JStr ''Adding to waitlist failed''))))
           else Inl (Error ''Adding to waitlist failed. Please check your network or try again later.'')))"

definition try_catch_finally ::
  "(page \<Rightarrow> (thrown + unit) \<times> page) \<Rightarrow> (thrown \<Rightarrow> page \<Rightarrow> (thrown + unit) \<times> page) \<Rightarrow>
   (page \<Rightarrow> page) \<Rightarrow> page \<Rightarrow> (thrown + unit) \<times> page" where
  "try_catch_finally block handler fin w =
     (case block w of
        (Inr u, w1) \<Rightarrow> (Inr u, fin w1)
      | (Inl e, w1) \<Rightarrow> (case handler e w1 of (r, w2) \<Rightarrow> (r, fin w2)))"

definition handleWaitlistSubmit_start :: "string option \<Rightarrow> page \<Rightarrow> page" where
  \<comment> \<open>lines 174-182, up to the \<open>await\<close>: the values sent are those of the render the
      handler closes over\<close>
  "handleWaitlistSubmit_start API_URL w =
     addToWaitlist_send API_URL (email w) (name w) (Some (restaurantName w))
       (w\<lparr>isSubmitting := True\<rparr>)"

definition handleWaitlistSubmit_settle :: "thrown + jsval \<Rightarrow> page \<Rightarrow> (thrown + unit) \<times> page" where
  \<comment> \<open>lines 177-197, from the \<open>await\<close> on; \<open>Inl\<close> in the result would be an error
      leaving the handler\<close>
  "handleWaitlistSubmit_settle outcome =
     try_catch_finally
       (\<lambda>w. case addToWaitlist_settled outcome of
               Inl e \<Rightarrow> (Inl e, w)
             | Inr d \<Rightarrow>
                 (Inr (),
                  w\<lparr>toasts := toasts w @
                       [\<lparr>kind = success, title = ''You're on the list!'',
                         description = ''Thank you for joining our waitlist. We'll notify you when we launch.''\<rparr>],
                    email := [], name := [], restaurantName := [], subscribed := True\<rparr>))
       (\<lambda>e w. (Inr (),
                w\<lparr>toasts := toasts w @
                     [\<lparr>kind = error, title = ''Failed to join waitlist'',
                       description = (if instanceof_Error e then message e
                                      else ''Please try again later.'')\<rparr>]\<rparr>))
       (\<lambda>w. w\<lparr>isSubmitting := False\<rparr>)"

subsection \<open>The form as rendered, and the events that reach it\<close>

datatype cta_view =
    WaitlistForm string string string bool
  | Confirmation

text \<open>
  \<open>WaitlistForm n e r d\<close> is the form of lines 588-640 with the values of its three
  inputs and the \<open>disabled\<close> attribute of its submit button; \<open>Confirmation\<close> is the
  other branch of \<open>!subscribed ? ... : ...\<close>.
\<close>

definition render_cta :: "page \<Rightarrow> cta_view" where
  "render_cta w =
     (if \<not> subscribed w then WaitlistForm (name w) (email w) (restaurantName w) (isSubmitting w)
      else Confirmation)"

datatype event =
    ChangeName string
  | ChangeEmail string
  | ChangeRestaurantName string
  | ActivateSubmit
  | Settle "thrown + jsval"

text \<open>
  \<open>ActivateSubmit\<close> is the user activating the submit button of a form whose required
  inputs the browser accepts (a click, or Enter in an input): the browser fires no
  \<open>submit\<close> event when the button is disabled, and there is no form once the
  confirmation is shown. \<open>Settle\<close> is the oldest pending promise settling, which
  resumes the handler that awaits it.
\<close>

fun step :: "string option \<Rightarrow> event \<Rightarrow> page \<Rightarrow> page" where
  "step API_URL (ChangeName s) w = (if subscribed w then w else w\<lparr>name := s\<rparr>)"
| "step API_URL (ChangeEmail s) w = (if subscribed w then w else w\<lparr>email := s\<rparr>)"
| "step API_URL (ChangeRestaurantName s) w = (if subscribed w then w else w\<lparr>restaurantName := s\<rparr>)"
| "step API_URL ActivateSubmit w =
     (case render_cta w of
        WaitlistForm n e r disabled \<Rightarrow>
          (if disabled then w else handleWaitlistSubmit_start API_URL w)
      | Confirmation \<Rightarrow> w)"
| "step API_URL (Settle outcome) w =
     (case pending w of
        [] \<Rightarrow> w
      | req # rest \<Rightarrow> snd (handleWaitlistSubmit_settle outcome (w\<lparr>pending := rest\<rparr>)))"

fun run :: "string option \<Rightarrow> event list \<Rightarrow> page \<Rightarrow> page" where
  "run API_URL [] w = w"
| "run API_URL (ev # evs) w = run API_URL evs (step API_URL ev w)"

section \<open>Entrance animations (\<open>AnimatedSection\<close>, \<open>FeatureCard\<close>)\<close>

record intersection_entry =
  isIntersecting :: bool
  intersectionRatio :: real

record inView_options =
  triggerOnce :: bool
  threshold :: real

record inView_hook =
  inView :: bool
  observing :: bool

definition above_threshold :: "inView_options \<Rightarrow> intersection_entry \<Rightarrow> bool" where
  "above_threshold opts entry = (isIntersecting entry \<and> threshold opts \<le> intersectionRatio entry)"

definition useInView_initial :: inView_hook where
  "useInView_initial = \<lparr>inView = False, observing = True\<rparr>"

definition useInView_notify :: "inView_options \<Rightarrow> intersection_entry \<Rightarrow> inView_hook \<Rightarrow> inView_hook" where
  \<comment> \<open>Modelled from the spec: the visibility source, the \<open>useInView\<close> hook of the
      package react-intersection-observer, whose code is not part of the source. The
      spec has it publish a one-shot "entered view" event per section, the first time
      the element crosses the visibility threshold: the hook reports whether the
      observed element is in view, and with \<open>triggerOnce\<close> it stops observing once it
      has reported that it is.\<close>
  "useInView_notify opts entry h =
     (if \<not> observing h then h
      else \<lparr>inView = above_threshold opts entry,
            observing = \<not> (triggerOnce opts \<and> above_threshold opts entry)\<rparr>)"

fun useInView_run :: "inView_options \<Rightarrow> intersection_entry list \<Rightarrow> inView_hook \<Rightarrow> bool list" where
  \<comment> \<open>the values of \<open>inView\<close> the component is rendered with, one for each notification
      of the intersection observer (each scroll past or back over the threshold)\<close>
  "useInView_run opts [] h = []"
| "useInView_run opts (entry # later) h =
     inView (useInView_notify opts entry h)
       # useInView_run opts later (useInView_notify opts entry h)"

record motion_target =
  opacity :: int
  y :: int

definition AnimatedSection_options :: inView_options where
  \<comment> \<open>lines 107-110\<close>
  "AnimatedSection_options = \<lparr>triggerOnce = True, threshold = 1 / 10\<rparr>"

definition AnimatedSection_animate :: "bool \<Rightarrow> motion_target" where
  \<comment> \<open>line 116; the target for \<open>False\<close> is also the \<open>initial\<close> of line 115\<close>
  "AnimatedSection_animate v = (if v then \<lparr>opacity = 1, y = 0\<rparr> else \<lparr>opacity = 0, y = 50\<rparr>)"

definition AnimatedSection :: "intersection_entry list \<Rightarrow> motion_target list" where
  \<comment> \<open>the \<open>animate\<close> targets of the successive renders: the first render, then one for
      each notification\<close>
  "AnimatedSection entries =
     map AnimatedSection_animate
       (inView useInView_initial # useInView_run AnimatedSection_options entries useInView_initial)"

definition FeatureCard_options :: inView_options where
  \<comment> \<open>lines 137-140\<close>
  "FeatureCard_options = \<lparr>triggerOnce = True, threshold = 1 / 10\<rparr>"

definition FeatureCard_animate :: "bool \<Rightarrow> motion_target" where
  \<comment> \<open>line 146; the target for \<open>False\<close> is also the \<open>initial\<close> of line 145\<close>
  "FeatureCard_animate v = (if v then \<lparr>opacity = 1, y = 0\<rparr> else \<lparr>opacity = 0, y = 20\<rparr>)"

definition FeatureCard :: "intersection_entry list \<Rightarrow> motion_target list" where
  "FeatureCard entries =
     map FeatureCard_animate
       (inView useInView_initial # useInView_run FeatureCard_options entries useInView_initial)"

fun entrances :: "motion_target \<Rightarrow> motion_target \<Rightarrow> motion_target list \<Rightarrow> nat" where
  \<comment> \<open>how often the target changes from \<open>hidden\<close> to \<open>visible\<close> between two successive
      renders, which is when the motion component plays the entrance transition\<close>
  "entrances hidden visible (a # b # rest) =
     (if a = hidden \<and> b = visible then 1 else 0) + entrances hidden visible (b # rest)"
| "entrances hidden visible rest = 0"

subsection \<open>Arithmetic of the field formulas\<close>

lemma floor_js_rem:
  assumes "0 \<le> x" and "0 < m"
  shows "Math_floor (js_rem x (of_int m)) = \<lfloor>x\<rfloor> mod m"
proof -
  have q: "0 \<le> x / of_int m" using assms by simp
  have "js_trunc (x / of_int m) = \<lfloor>x / of_int m\<rfloor>"
    using q by (simp add: js_trunc_def)
  also have "\<dots> = \<lfloor>x\<rfloor> div m"
    using assms by (simp add: floor_divide_real_eq_div)
  finally have t: "js_trunc (x / of_int m) = \<lfloor>x\<rfloor> div m" .
  have "js_rem x (of_int m) = x - of_int (m * (\<lfloor>x\<rfloor> div m))"
    by (simp add: js_rem_def t)
  then have "\<lfloor>js_rem x (of_int m)\<rfloor> = \<lfloor>x\<rfloor> - m * (\<lfloor>x\<rfloor> div m)"
    by (simp only: floor_diff_of_int)
  also have "\<dots> = \<lfloor>x\<rfloor> mod m"
    by (simp add: minus_mult_div_eq_mod)
  finally show ?thesis by (simp add: Math_floor_def)
qed

lemma days_field:
  "Math_floor (of_int d / (1000 * 60 * 60 * 24)) = d div 86400000"
proof -
  have "(of_int d :: real) / (1000 * 60 * 60 * 24) = of_int d / of_int 86400000" by simp
  then show ?thesis
    unfolding Math_floor_def by (simp only: floor_divide_of_int_eq)
qed

lemma hours_field:
  assumes "0 < d"
  shows "Math_floor (js_rem (of_int d / (1000 * 60 * 60)) 24) = (d div 3600000) mod 24"
proof -
  have e: "(of_int d :: real) / (1000 * 60 * 60) = of_int d / of_int 3600000" by simp
  have nn: "0 \<le> (of_int d :: real) / of_int 3600000" using assms by simp
  have "Math_floor (js_rem (of_int d / of_int 3600000) (of_int 24))
        = \<lfloor>(of_int d :: real) / of_int 3600000\<rfloor> mod 24"
    using nn by (rule floor_js_rem) simp
  then show ?thesis
    by (simp only: e floor_divide_of_int_eq) simp
qed

lemma minutes_field:
  assumes "0 < d"
  shows "Math_floor (js_rem (of_int d / 1000 / 60) 60) = (d div 60000) mod 60"
proof -
  have e: "(of_int d :: real) / 1000 / 60 = of_int d / of_int 60000" by simp
  have nn: "0 \<le> (of_int d :: real) / of_int 60000" using assms by simp
  have "Math_floor (js_rem (of_int d / of_int 60000) (of_int 60))
        = \<lfloor>(of_int d :: real) / of_int 60000\<rfloor> mod 60"
    using nn by (rule floor_js_rem) simp
  then show ?thesis
    by (simp only: e floor_divide_of_int_eq) simp
qed

lemma seconds_field:
  assumes "0 < d"
  shows "Math_floor (js_rem (of_int d / 1000) 60) = (d div 1000) mod 60"
proof -
  have e: "(of_int d :: real) / 1000 = of_int d / of_int 1000" by simp
  have nn: "0 \<le> (of_int d :: real) / of_int 1000" using assms by simp
  have "Math_floor (js_rem (of_int d / of_int 1000) (of_int 60))
        = \<lfloor>(of_int d :: real) / of_int 1000\<rfloor> mod 60"
    using nn by (rule floor_js_rem) simp
  then show ?thesis
    by (simp only: e floor_divide_of_int_eq) simp
qed

lemma calculateTimeLeft_future:
  assumes "0 < launchDate - now"
  shows "calculateTimeLeft launchDate now st =
           \<lparr>days = (launchDate - now) div 86400000,
            hours = ((launchDate - now) div 3600000) mod 24,
            minutes = ((launchDate - now) div 60000) mod 60,
            seconds = ((launchDate - now) div 1000) mod 60\<rparr>"
  using assms
  by (simp only: calculateTimeLeft_def Let_def if_True
        days_field hours_field minutes_field seconds_field)

lemma calculateTimeLeft_past:
  "launchDate - now \<le> 0 \<Longrightarrow> calculateTimeLeft launchDate now st = st"
  by (simp add: calculateTimeLeft_def)

lemma ticks_append:
  "ticks launchDate (xs @ ys) st = ticks launchDate ys (ticks launchDate xs st)"
  by (induction xs arbitrary: st) simp_all

lemma calculateTimeLeft_nonNegative:
  assumes "nonNegative st"
  shows "nonNegative (calculateTimeLeft launchDate now st)"
proof (cases "0 < launchDate - now")
  case True
  then show ?thesis
    by (simp only: calculateTimeLeft_future) (simp add: nonNegative_def pos_imp_zdiv_nonneg_iff)
next
  case False
  then show ?thesis using assms by (simp add: calculateTimeLeft_past)
qed

lemma ticks_nonNegative:
  "nonNegative st \<Longrightarrow> nonNegative (ticks launchDate nows st)"
  by (induction nows arbitrary: st) (simp_all add: calculateTimeLeft_nonNegative)

lemma reconstruct_seconds:
  fixes d :: int
  shows "(d div 86400000) * 86400000 + ((d div 3600000) mod 24) * 3600000
           + ((d div 60000) mod 60) * 60000 + ((d div 1000) mod 60) * 1000
         = (d div 1000) * 1000"
proof -
  define s where "s = d div 1000"
  have m: "d div 60000 = s div 60"
    unfolding s_def by (simp add: div_mult2_eq)
  have h: "d div 3600000 = (s div 60) div 60"
    unfolding s_def by (simp add: div_mult2_eq)
  have dd: "d div 86400000 = ((s div 60) div 60) div 24"
    unfolding s_def by (simp add: div_mult2_eq)
  have a: "s = (s div 60) * 60 + s mod 60" by simp
  have b: "s div 60 = ((s div 60) div 60) * 60 + (s div 60) mod 60" by simp
  have c: "(s div 60) div 60 = (((s div 60) div 60) div 24) * 24 + ((s div 60) div 60) mod 24"
    by simp
  show ?thesis
    unfolding m h dd s_def[symmetric]
    using a b c by algebra
qed

section \<open>Properties of the countdown\<close>

text \<open>
  Claim C2. At every run of \<open>calculateTimeLeft\<close> at which
  \<open>delta = target - now\<close> is strictly positive, whatever the earlier runs were, the
  state of the component becomes \<open>days = floor (delta / 86400000)\<close>,
  \<open>hours = floor (delta / 3600000) mod 24\<close>, \<open>minutes = floor (delta / 60000) mod 60\<close>,
  \<open>seconds = floor (delta / 1000) mod 60\<close>; on integers \<open>floor (delta / k)\<close> is
  \<open>delta div k\<close>.
\<close>

theorem countdown_fields_when_positive:
  assumes "0 < launchDate - now"
  shows "CountdownTimer launchDate (earlier @ [now]) =
           \<lparr>days = (launchDate - now) div 86400000,
            hours = ((launchDate - now) div 3600000) mod 24,
            minutes = ((launchDate - now) div 60000) mod 60,
            seconds = ((launchDate - now) div 1000) mod 60\<rparr>"
  using assms
  by (simp add: CountdownTimer_def ticks_append calculateTimeLeft_future)

theorem countdown_fields_when_positive_witness:
  "0 < launchDate_ms - (launchDate_ms - 93784005) \<and>
   CountdownTimer launchDate_ms [launchDate_ms + 5, launchDate_ms - 93784005] =
     \<lparr>days = 1, hours = 2, minutes = 3, seconds = 4\<rparr>"
  using countdown_fields_when_positive
          [of launchDate_ms "launchDate_ms - 93784005" "[launchDate_ms + 5]"]
  by simp

text \<open>
  Claim C6. For every target in the future (\<open>target - now > 0\<close>) the fields computed at
  that tick satisfy \<open>0 \<le> seconds < 60\<close>, \<open>0 \<le> minutes < 60\<close>, \<open>0 \<le> hours < 24\<close> and
  \<open>0 \<le> days\<close>, and the milliseconds rebuilt from the four fields are at most
  \<open>target - now\<close> and less than 1000 ms below it.
\<close>

theorem countdown_fields_bounded_and_reconstruct:
  assumes "0 < launchDate - now"
    and "t = CountdownTimer launchDate (earlier @ [now])"
  shows "0 \<le> seconds t \<and> seconds t < 60 \<and> 0 \<le> minutes t \<and> minutes t < 60 \<and>
         0 \<le> hours t \<and> hours t < 24 \<and> 0 \<le> days t \<and>
         days t * 86400000 + hours t * 3600000 + minutes t * 60000 + seconds t * 1000
           \<le> launchDate - now \<and>
         launchDate - now
           < days t * 86400000 + hours t * 3600000 + minutes t * 60000 + seconds t * 1000 + 1000"
proof -
  define d where "d = launchDate - now"
  have t: "t = \<lparr>days = d div 86400000, hours = (d div 3600000) mod 24,
                 minutes = (d div 60000) mod 60, seconds = (d div 1000) mod 60\<rparr>"
    using assms
    by (simp add: CountdownTimer_def ticks_append calculateTimeLeft_future d_def)
  have r: "days t * 86400000 + hours t * 3600000 + minutes t * 60000 + seconds t * 1000
             = (d div 1000) * 1000"
    unfolding t by (simp only: timeLeft.simps reconstruct_seconds)
  have dpos: "0 < d" using assms(1) by (simp add: d_def)
  have lo: "(d div 1000) * 1000 \<le> d" by simp
  have hi: "d < (d div 1000) * 1000 + 1000"
    using pos_mod_bound[of 1000 d] mult_div_mod_eq[of 1000 d] by linarith
  have fields: "0 \<le> seconds t \<and> seconds t < 60 \<and> 0 \<le> minutes t \<and> minutes t < 60 \<and>
         0 \<le> hours t \<and> hours t < 24 \<and> 0 \<le> days t"
    using dpos unfolding t by (simp add: pos_imp_zdiv_nonneg_iff)
  show ?thesis
    using fields lo hi unfolding r d_def[symmetric] by simp
qed

theorem countdown_fields_bounded_and_reconstruct_witness:
  "0 < launchDate_ms - (launchDate_ms - 93784005) \<and>
   CountdownTimer launchDate_ms [launchDate_ms - 93784005] =
     \<lparr>days = 1, hours = 2, minutes = 3, seconds = 4\<rparr> \<and>
   (1 * 86400000 + 2 * 3600000 + 3 * 60000 + 4 * 1000 :: int) \<le> 93784005 \<and>
   (93784005 :: int) < 1 * 86400000 + 2 * 3600000 + 3 * 60000 + 4 * 1000 + 1000"
proof -
  have p: "0 < launchDate_ms - (launchDate_ms - 93784005)" by simp
  have e: "CountdownTimer launchDate_ms ([] @ [launchDate_ms - 93784005]) =
             \<lparr>days = 1, hours = 2, minutes = 3, seconds = 4\<rparr>"
    using p by (simp add: CountdownTimer_def calculateTimeLeft_future)
  show ?thesis
    using countdown_fields_bounded_and_reconstruct [OF p e [symmetric]] p e by simp
qed

text \<open>
  Claim C7. Once the target instant is reached (a tick with \<open>target - now \<le> 0\<close>), no
  field of the countdown is negative, at that tick or after any later ticks, whatever
  ticks came before.
\<close>

theorem countdown_never_negative_after_target:
  assumes "launchDate - now \<le> 0"
  shows "nonNegative (CountdownTimer launchDate (earlier @ now # later))"
  unfolding CountdownTimer_def
  by (rule ticks_nonNegative) (simp add: nonNegative_def initialTimeLeft_def)

theorem countdown_never_negative_after_target_witness:
  "launchDate_ms - (launchDate_ms + 1) \<le> 0 \<and>
   nonNegative (CountdownTimer launchDate_ms
     [launchDate_ms - 1500, launchDate_ms + 1, launchDate_ms + 1001]) \<and>
   CountdownTimer launchDate_ms
     [launchDate_ms - 1500, launchDate_ms + 1, launchDate_ms + 1001] =
     \<lparr>days = 0, hours = 0, minutes = 0, seconds = 1\<rparr>"
proof -
  have p: "launchDate_ms - (launchDate_ms + 1) \<le> 0" by simp
  have e: "CountdownTimer launchDate_ms
     [launchDate_ms - 1500, launchDate_ms + 1, launchDate_ms + 1001] =
     \<lparr>days = 0, hours = 0, minutes = 0, seconds = 1\<rparr>"
    by (simp add: CountdownTimer_def calculateTimeLeft_future calculateTimeLeft_past)
  show ?thesis
    using countdown_never_negative_after_target
            [OF p, of "[launchDate_ms - 1500]" "[launchDate_ms + 1001]"] p e
    by simp
qed

section \<open>The waitlist handler, step by step\<close>

lemma addToWaitlist_settled_rejected:
  "\<exists>m. addToWaitlist_settled (Inl e) = Inl (Error m) \<or>
       addToWaitlist_settled (Inl e) = Inl (TypeError m)"
proof (cases "isAxiosError e \<and> response e \<noteq> None")
  case False
  then show ?thesis by (auto simp add: addToWaitlist_settled_def)
next
  case True
  then obtain d where d: "response e = Some d" by auto
  show ?thesis
    using True d
    by (cases d) (auto simp add: addToWaitlist_settled_def get_message_def split: option.splits)
qed

lemma handleWaitlistSubmit_settle_resolved:
  "handleWaitlistSubmit_settle (Inr d) w =
     (Inr (),
      w\<lparr>toasts := toasts w @
           [\<lparr>kind = success, title = ''You're on the list!'',
             description = ''Thank you for joining our waitlist. We'll notify you when we launch.''\<rparr>],
        email := [], name := [], restaurantName := [], subscribed := True,
        isSubmitting := False\<rparr>)"
  by (simp add: handleWaitlistSubmit_settle_def try_catch_finally_def addToWaitlist_settled_def)

lemma handleWaitlistSubmit_settle_thrown:
  assumes "addToWaitlist_settled outcome = Inl e'"
  shows "handleWaitlistSubmit_settle outcome w =
     (Inr (),
      w\<lparr>toasts := toasts w @
           [\<lparr>kind = error, title = ''Failed to join waitlist'',
             description = (if instanceof_Error e' then message e' else ''Please try again later.'')\<rparr>],
        isSubmitting := False\<rparr>)"
  using assms
  by (simp add: handleWaitlistSubmit_settle_def try_catch_finally_def)

lemma handleWaitlistSubmit_settle_rejected:
  "\<exists>m. handleWaitlistSubmit_settle (Inl e) w =
     (Inr (),
      w\<lparr>toasts := toasts w @
           [\<lparr>kind = error, title = ''Failed to join waitlist'', description = m\<rparr>],
        isSubmitting := False\<rparr>)"
proof -
  obtain m where "addToWaitlist_settled (Inl e) = Inl (Error m) \<or>
       addToWaitlist_settled (Inl e) = Inl (TypeError m)"
    using addToWaitlist_settled_rejected by blast
  then show ?thesis
    by (auto simp add: handleWaitlistSubmit_settle_thrown)
qed

lemma handleWaitlistSubmit_settle_cases:
  "(\<exists>t. handleWaitlistSubmit_settle outcome w =
     (Inr (), w\<lparr>toasts := toasts w @ [t], email := [], name := [], restaurantName := [],
                subscribed := True, isSubmitting := False\<rparr>)) \<or>
   (\<exists>t. handleWaitlistSubmit_settle outcome w =
     (Inr (), w\<lparr>toasts := toasts w @ [t], isSubmitting := False\<rparr>))"
proof (cases outcome)
  case (Inl e)
  then show ?thesis using handleWaitlistSubmit_settle_rejected[of e w] by blast
next
  case (Inr d)
  then show ?thesis using handleWaitlistSubmit_settle_resolved[of d w] by blast
qed

lemma handleWaitlistSubmit_start_eq:
  "handleWaitlistSubmit_start API_URL w =
     w\<lparr>isSubmitting := True,
       requests := requests w @
         [\<lparr>verb = ''POST'', baseURL = API_URL, url = ''/auth/wait-list'',
           headers = [(''Content-Type'', ''application/json'')],
           body = JObj [(''email'', JStr (email w)), (''name'', JStr (name w)),
                        (''restaurantName'', JStr (restaurantName w))]\<rparr>],
       pending := pending w @
         [\<lparr>verb = ''POST'', baseURL = API_URL, url = ''/auth/wait-list'',
           headers = [(''Content-Type'', ''application/json'')],
           body = JObj [(''email'', JStr (email w)), (''name'', JStr (name w)),
                        (''restaurantName'', JStr (restaurantName w))]\<rparr>]\<rparr>"
  by (simp add: handleWaitlistSubmit_start_def addToWaitlist_send_def api_post_def
        waitlist_body_def Let_def)

lemma settle_keeps_network:
  "requests (snd (handleWaitlistSubmit_settle outcome w)) = requests w \<and>
   pending (snd (handleWaitlistSubmit_settle outcome w)) = pending w"
  using handleWaitlistSubmit_settle_cases[of outcome w] by auto

lemma step_one_outstanding:
  assumes "pending w = [] \<or> (isSubmitting w \<and> length (pending w) = 1)"
  shows "pending (step API_URL ev w) = [] \<or>
         (isSubmitting (step API_URL ev w) \<and> length (pending (step API_URL ev w)) = 1)"
proof (cases ev)
  case ActivateSubmit
  then show ?thesis
    using assms by (auto simp add: render_cta_def handleWaitlistSubmit_start_eq)
next
  case (Settle outcome)
  show ?thesis
  proof (cases "pending w")
    case Nil
    then show ?thesis using Settle by simp
  next
    case (Cons req rest)
    then have "rest = []" using assms by auto
    then show ?thesis using Settle Cons by (simp add: settle_keeps_network)
  qed
qed (use assms in auto)

lemma run_one_outstanding:
  assumes "pending w = [] \<or> (isSubmitting w \<and> length (pending w) = 1)"
  shows "pending (run API_URL evs w) = [] \<or>
         (isSubmitting (run API_URL evs w) \<and> length (pending (run API_URL evs w)) = 1)"
  using assms
proof (induction evs arbitrary: w)
  case Nil
  then show ?case by simp
next
  case (Cons ev evs)
  show ?case
    unfolding run.simps
    by (rule Cons.IH) (rule step_one_outstanding[OF Cons.prems])
qed

section \<open>Properties of the waitlist submission\<close>

text \<open>
  Claim C1. Every submission of the form with a non-empty name, a non-empty email and
  any restaurant name sends exactly one request: the handler's start appends one
  \<open>POST\<close> to \<open>/auth/wait-list\<close> with the header \<open>Content-Type: application/json\<close>, whose
  JSON body has exactly the members \<open>email\<close>, \<open>name\<close> and \<open>restaurantName\<close> with the
  submitted values, and the rest of the handler, however the promise settles, sends
  nothing.
\<close>

theorem waitlist_submission_posts_once:
  assumes "name w \<noteq> []" and "email w \<noteq> []"
    and "req = \<lparr>verb = ''POST'', baseURL = API_URL, url = ''/auth/wait-list'',
                 headers = [(''Content-Type'', ''application/json'')],
                 body = JObj [(''email'', JStr (email w)), (''name'', JStr (name w)),
                              (''restaurantName'', JStr (restaurantName w))]\<rparr>"
  shows "requests (handleWaitlistSubmit_start API_URL w) = requests w @ [req] \<and>
         requests (snd (handleWaitlistSubmit_settle outcome (handleWaitlistSubmit_start API_URL w)))
           = requests w @ [req] \<and>
         JSON_members (body req) =
           [(''email'', JStr (email w)), (''name'', JStr (name w)),
            (''restaurantName'', JStr (restaurantName w))]"
proof -
  have s: "requests (handleWaitlistSubmit_start API_URL w) = requests w @ [req]"
    unfolding assms(3) by (simp add: handleWaitlistSubmit_start_eq)
  have m: "JSON_members (body req) =
           [(''email'', JStr (email w)), (''name'', JStr (name w)),
            (''restaurantName'', JStr (restaurantName w))]"
    unfolding assms(3) by (simp add: JSON_members_def)
  show ?thesis
    using s m by (simp add: settle_keeps_network)
qed

theorem waitlist_submission_posts_once_witness:
  "name (run None [ChangeName ''Jane Doe'', ChangeEmail ''jane@example.com''] initialPage) \<noteq> [] \<and>
   email (run None [ChangeName ''Jane Doe'', ChangeEmail ''jane@example.com''] initialPage) \<noteq> [] \<and>
   requests (snd (handleWaitlistSubmit_settle (Inr JNull)
      (handleWaitlistSubmit_start None
         (run None [ChangeName ''Jane Doe'', ChangeEmail ''jane@example.com''] initialPage))))
     = [\<lparr>verb = ''POST'', baseURL = None, url = ''/auth/wait-list'',
         headers = [(''Content-Type'', ''application/json'')],
         body = JObj [(''email'', JStr ''jane@example.com''), (''name'', JStr ''Jane Doe''),
                      (''restaurantName'', JStr [])]\<rparr>]"
proof -
  define w where "w = run None [ChangeName ''Jane Doe'', ChangeEmail ''jane@example.com''] initialPage"
  have n: "name w = ''Jane Doe''" and e: "email w = ''jane@example.com''"
    and r: "restaurantName w = []" and q: "requests w = []"
    by (simp_all add: w_def initialPage_def)
  have n0: "name w \<noteq> []" and e0: "email w \<noteq> []" by (simp_all add: n e)
  show ?thesis
    using waitlist_submission_posts_once [OF n0 e0 refl, of None "Inr JNull"] n0 e0
    unfolding w_def[symmetric] by (simp add: n e r q)
qed

text \<open>
  Claim C3. When the submission succeeds (the promise of the request resolves), the
  handler clears \<open>name\<close>, \<open>email\<close> and \<open>restaurantName\<close> to the empty string, sets
  \<open>subscribed\<close>, so that the confirmation is rendered in place of the form, and shows
  one success notification.
\<close>

theorem success_clears_form_and_confirms:
  assumes "handleWaitlistSubmit_settle (Inr d) w = (r, w')"
  shows "name w' = [] \<and> email w' = [] \<and> restaurantName w' = [] \<and> subscribed w' \<and>
         render_cta w' = Confirmation \<and>
         toasts w' = toasts w @
           [\<lparr>kind = success, title = ''You're on the list!'',
             description = ''Thank you for joining our waitlist. We'll notify you when we launch.''\<rparr>]"
  using assms by (auto simp add: handleWaitlistSubmit_settle_resolved render_cta_def)

theorem success_clears_form_and_confirms_witness:
  "snd (handleWaitlistSubmit_settle (Inr (JObj [(''id'', JNum 7)]))
     (initialPage\<lparr>name := ''Jane Doe'', email := ''jane@example.com'', isSubmitting := True\<rparr>))
   = initialPage\<lparr>subscribed := True,
       toasts := [\<lparr>kind = success, title = ''You're on the list!'',
             description = ''Thank you for joining our waitlist. We'll notify you when we launch.''\<rparr>]\<rparr> \<and>
   render_cta (snd (handleWaitlistSubmit_settle (Inr (JObj [(''id'', JNum 7)]))
     (initialPage\<lparr>name := ''Jane Doe'', email := ''jane@example.com'', isSubmitting := True\<rparr>)))
   = Confirmation"
  using success_clears_form_and_confirms
          [OF surjective_pairing,
           of "JObj [(''id'', JNum 7)]"
              "initialPage\<lparr>name := ''Jane Doe'', email := ''jane@example.com'', isSubmitting := True\<rparr>"]
  by (simp add: handleWaitlistSubmit_settle_resolved initialPage_def)

text \<open>
  Claim C4, as stated: a failed submission carries the server's message verbatim
  whenever the response body has a \<open>message\<close> field. The body \<open>{message: ""}\<close> has the
  field, and the error carries \<open>Adding to waitlist failed\<close> instead of the server's
  empty message: \<open>||\<close> in line 46 replaces every falsy message by that text.
\<close>

theorem server_message_verbatim_counterexample:
  "map_of [(''message'', JStr [])] ''message'' = Some (JStr []) \<and>
   addToWaitlist_settled
     (Inl (AxiosError ''Request failed with status code 400''
            (Some (JObj [(''message'', JStr [])]))))
     = Inl (Error ''Adding to waitlist failed'') \<and>
   message (Error ''Adding to waitlist failed'') \<noteq> []"
  by (simp add: addToWaitlist_settled_def get_message_def)

text \<open>
  Claim C4, amended. When the server responded with a body whose \<open>message\<close> field is a
  non-empty string, the error of the failed submission, and the description of the
  error notification, are that string verbatim; when the request failed with no
  response, they are the fixed text
  \<open>Adding to waitlist failed. Please check your network or try again later.\<close>, which
  depends on nothing the server or the failure supplied.
\<close>

theorem server_message_or_generic_fallback:
  assumes "map_of fs ''message'' = Some (JStr m)" and "m \<noteq> []"
    and "response e = None"
  shows "addToWaitlist_settled (Inl (AxiosError am (Some (JObj fs)))) = Inl (Error m) \<and>
         toasts (snd (handleWaitlistSubmit_settle (Inl (AxiosError am (Some (JObj fs)))) w))
           = toasts w @ [\<lparr>kind = error, title = ''Failed to join waitlist'', description = m\<rparr>] \<and>
         addToWaitlist_settled (Inl e)
           = Inl (Error ''Adding to waitlist failed. Please check your network or try again later.'') \<and>
         toasts (snd (handleWaitlistSubmit_settle (Inl e) w))
           = toasts w @ [\<lparr>kind = error, title = ''Failed to join waitlist'',
               description = ''Adding to waitlist failed. Please check your network or try again later.''\<rparr>]"
proof -
  have a: "addToWaitlist_settled (Inl (AxiosError am (Some (JObj fs)))) = Inl (Error m)"
    using assms(1,2) by (simp add: addToWaitlist_settled_def get_message_def)
  have b: "addToWaitlist_settled (Inl e)
           = Inl (Error ''Adding to waitlist failed. Please check your network or try again later.'')"
    using assms(3) by (simp add: addToWaitlist_settled_def)
  show ?thesis
    by (simp add: a b handleWaitlistSubmit_settle_thrown [OF a] handleWaitlistSubmit_settle_thrown [OF b])
qed

theorem server_message_or_generic_fallback_witness:
  "map_of [(''statusCode'', JNum 409), (''message'', JStr ''Email already registered'')] ''message''
     = Some (JStr ''Email already registered'') \<and>
   ''Email already registered'' \<noteq> [] \<and>
   response (AxiosError ''Network Error'' None) = None \<and>
   toasts (snd (handleWaitlistSubmit_settle
     (Inl (AxiosError ''Request failed with status code 409''
        (Some (JObj [(''statusCode'', JNum 409), (''message'', JStr ''Email already registered'')]))))
     initialPage))
     = [\<lparr>kind = error, title = ''Failed to join waitlist'',
         description = ''Email already registered''\<rparr>] \<and>
   toasts (snd (handleWaitlistSubmit_settle (Inl (AxiosError ''Network Error'' None)) initialPage))
     = [\<lparr>kind = error, title = ''Failed to join waitlist'',
         description = ''Adding to waitlist failed. Please check your network or try again later.''\<rparr>]"
proof -
  have h1: "map_of [(''statusCode'', JNum 409), (''message'', JStr ''Email already registered'')] ''message''
     = Some (JStr ''Email already registered'')" by simp
  have h2: "''Email already registered'' \<noteq> []" by simp
  have h3: "response (AxiosError ''Network Error'' None) = None" by simp
  have t0: "toasts initialPage = []" by (simp add: initialPage_def)
  show ?thesis
    using server_message_or_generic_fallback
            [OF h1 h2 h3, of "''Request failed with status code 409''" initialPage] h1 h3
    by (simp add: t0)
qed

text \<open>
  Claim C5. When the submission fails, for whatever the promise was rejected with, the
  handler leaves \<open>name\<close>, \<open>email\<close> and \<open>restaurantName\<close> as they were and \<open>subscribed\<close>
  unset, it returns normally (the error is caught and does not leave it), and the form
  is rendered with its submit button enabled, so that activating it sends a new request.
\<close>

theorem failure_keeps_form_for_retry:
  assumes "handleWaitlistSubmit_settle (Inl e) w = (r, w')" and "\<not> subscribed w"
  shows "name w' = name w \<and> email w' = email w \<and> restaurantName w' = restaurantName w \<and>
         \<not> subscribed w' \<and> r = Inr () \<and> \<not> isSubmitting w' \<and>
         render_cta w' = WaitlistForm (name w) (email w) (restaurantName w) False \<and>
         length (requests (step API_URL ActivateSubmit w')) = Suc (length (requests w'))"
proof -
  obtain d where "handleWaitlistSubmit_settle (Inl e) w =
     (Inr (),
      w\<lparr>toasts := toasts w @
           [\<lparr>kind = error, title = ''Failed to join waitlist'', description = d\<rparr>],
        isSubmitting := False\<rparr>)"
    using handleWaitlistSubmit_settle_rejected by blast
  then have r: "r = Inr ()"
    and w': "w' = w\<lparr>toasts := toasts w @
           [\<lparr>kind = error, title = ''Failed to join waitlist'', description = d\<rparr>],
        isSubmitting := False\<rparr>"
    using assms(1) by simp_all
  show ?thesis
    using assms(2) unfolding r w'
    by (simp add: render_cta_def handleWaitlistSubmit_start_eq)
qed

theorem failure_keeps_form_for_retry_witness:
  "\<not> subscribed (initialPage\<lparr>name := ''Jane Doe'', email := ''jane@example.com'', isSubmitting := True\<rparr>) \<and>
   handleWaitlistSubmit_settle (Inl (AxiosError ''Request failed with status code 500'' (Some JNull)))
     (initialPage\<lparr>name := ''Jane Doe'', email := ''jane@example.com'', isSubmitting := True\<rparr>)
   = (Inr (),
      initialPage\<lparr>name := ''Jane Doe'', email := ''jane@example.com'',
        toasts := [\<lparr>kind = error, title = ''Failed to join waitlist'',
          description = ''Cannot read properties of null (reading 'message')''\<rparr>]\<rparr>) \<and>
   render_cta (snd (handleWaitlistSubmit_settle
       (Inl (AxiosError ''Request failed with status code 500'' (Some JNull)))
       (initialPage\<lparr>name := ''Jane Doe'', email := ''jane@example.com'', isSubmitting := True\<rparr>)))
   = WaitlistForm ''Jane Doe'' ''jane@example.com'' [] False"
proof -
  define w where "w = initialPage\<lparr>name := ''Jane Doe'', email := ''jane@example.com'', isSubmitting := True\<rparr>"
  have s: "\<not> subscribed w" by (simp add: w_def initialPage_def)
  have e: "addToWaitlist_settled (Inl (AxiosError ''Request failed with status code 500'' (Some JNull)))
             = Inl (TypeError ''Cannot read properties of null (reading 'message')'')"
    by (simp add: addToWaitlist_settled_def get_message_def)
  have v: "handleWaitlistSubmit_settle (Inl (AxiosError ''Request failed with status code 500'' (Some JNull))) w
   = (Inr (),
      initialPage\<lparr>name := ''Jane Doe'', email := ''jane@example.com'',
        toasts := [\<lparr>kind = error, title = ''Failed to join waitlist'',
          description = ''Cannot read properties of null (reading 'message')''\<rparr>]\<rparr>)"
    by (simp add: handleWaitlistSubmit_settle_thrown [OF e] w_def initialPage_def)
  have n: "name w = ''Jane Doe''" "email w = ''jane@example.com''" "restaurantName w = []"
    by (simp_all add: w_def initialPage_def)
  show ?thesis
    using failure_keeps_form_for_retry [OF v s, of None] s v
    unfolding w_def[symmetric] by (simp add: n)
qed

text \<open>
  Claim C8. In every state the page can reach, at most one request is outstanding, and
  while the submission-in-progress flag is set, which it is whenever a request is
  outstanding, activating submit again changes nothing: no second request is sent.
\<close>

theorem no_second_post_while_outstanding:
  assumes "w = run API_URL evs initialPage" and "pending w \<noteq> []"
  shows "isSubmitting w \<and> length (pending w) = 1 \<and>
         step API_URL ActivateSubmit w = w \<and>
         requests (step API_URL ActivateSubmit w) = requests w"
proof -
  have "pending initialPage = [] \<or> (isSubmitting initialPage \<and> length (pending initialPage) = 1)"
    by (simp add: initialPage_def)
  then have "pending w = [] \<or> (isSubmitting w \<and> length (pending w) = 1)"
    unfolding assms(1) by (rule run_one_outstanding)
  then have i: "isSubmitting w" and l: "length (pending w) = 1"
    using assms(2) by simp_all
  have "step API_URL ActivateSubmit w = w"
    using i by (simp add: render_cta_def)
  then show ?thesis using i l by simp
qed

theorem no_second_post_while_outstanding_witness:
  "pending (run None [ChangeName ''Jane Doe'', ChangeEmail ''jane@example.com'', ActivateSubmit]
              initialPage) \<noteq> [] \<and>
   requests (run None [ChangeName ''Jane Doe'', ChangeEmail ''jane@example.com'', ActivateSubmit,
               ActivateSubmit] initialPage)
     = [\<lparr>verb = ''POST'', baseURL = None, url = ''/auth/wait-list'',
         headers = [(''Content-Type'', ''application/json'')],
         body = JObj [(''email'', JStr ''jane@example.com''), (''name'', JStr ''Jane Doe''),
                      (''restaurantName'', JStr [])]\<rparr>]"
proof -
  define w where
    "w = run None [ChangeName ''Jane Doe'', ChangeEmail ''jane@example.com'', ActivateSubmit] initialPage"
  have q: "requests w
     = [\<lparr>verb = ''POST'', baseURL = None, url = ''/auth/wait-list'',
         headers = [(''Content-Type'', ''application/json'')],
         body = JObj [(''email'', JStr ''jane@example.com''), (''name'', JStr ''Jane Doe''),
                      (''restaurantName'', JStr [])]\<rparr>]"
    and p: "pending w \<noteq> []"
    by (simp_all add: w_def initialPage_def render_cta_def handleWaitlistSubmit_start_eq)
  have a: "run None [ChangeName ''Jane Doe'', ChangeEmail ''jane@example.com'', ActivateSubmit,
               ActivateSubmit] initialPage = step None ActivateSubmit w"
    by (simp add: w_def)
  show ?thesis
    using no_second_post_while_outstanding [OF w_def p] p q
    unfolding a w_def[symmetric] by simp
qed

text \<open>
  Claim C10. Every invocation of the submit handler sets the submission-in-progress
  flag at its start, and the flag is reset when the attempt completes, whether the
  promise resolved or was rejected; a form rendered after that has its submit button
  enabled.
\<close>

theorem submitting_flag_set_then_reset:
  "isSubmitting (handleWaitlistSubmit_start API_URL w) \<and>
   \<not> isSubmitting (snd (handleWaitlistSubmit_settle (Inr d) w1)) \<and>
   \<not> isSubmitting (snd (handleWaitlistSubmit_settle (Inl e) w2)) \<and>
   render_cta (snd (handleWaitlistSubmit_settle (Inl e) w2))
     \<noteq> WaitlistForm n' e' r' True \<and>
   render_cta (snd (handleWaitlistSubmit_settle (Inr d) w1))
     \<noteq> WaitlistForm n' e' r' True"
proof -
  obtain t where "handleWaitlistSubmit_settle (Inl e) w2 =
     (Inr (),
      w2\<lparr>toasts := toasts w2 @
           [\<lparr>kind = error, title = ''Failed to join waitlist'', description = t\<rparr>],
        isSubmitting := False\<rparr>)"
    using handleWaitlistSubmit_settle_rejected by blast
  then show ?thesis
    by (simp add: handleWaitlistSubmit_start_eq handleWaitlistSubmit_settle_resolved render_cta_def)
qed

theorem submitting_flag_set_then_reset_witness:
  "isSubmitting (handleWaitlistSubmit_start None initialPage) \<and>
   \<not> isSubmitting (snd (handleWaitlistSubmit_settle (Inr JNull)
        (handleWaitlistSubmit_start None initialPage))) \<and>
   \<not> isSubmitting (snd (handleWaitlistSubmit_settle (Inl (AxiosError ''Network Error'' None))
        (handleWaitlistSubmit_start None initialPage)))"
  using submitting_flag_set_then_reset
          [of None initialPage JNull "handleWaitlistSubmit_start None initialPage"
              "AxiosError ''Network Error'' None" "handleWaitlistSubmit_start None initialPage"]
  by simp

section \<open>Properties of the entrance animations\<close>

lemma useInView_run_stopped:
  "\<not> observing h \<Longrightarrow> useInView_run opts entries h = replicate (length entries) (inView h)"
  by (induction entries) (simp_all add: useInView_notify_def)

lemma useInView_run_once:
  assumes "triggerOnce opts" and "observing h"
  shows "useInView_run opts entries h =
           replicate (length (takeWhile (\<lambda>e. \<not> above_threshold opts e) entries)) False @
           replicate (length (dropWhile (\<lambda>e. \<not> above_threshold opts e) entries)) True"
  using assms(2)
proof (induction entries arbitrary: h)
  case Nil
  then show ?case by simp
next
  case (Cons entry later)
  show ?case
  proof (cases "above_threshold opts entry")
    case True
    then have "\<not> observing (useInView_notify opts entry h)"
      and "inView (useInView_notify opts entry h)"
      using Cons.prems assms(1) by (simp_all add: useInView_notify_def)
    then show ?thesis
      using True by (simp add: useInView_run_stopped)
  next
    case False
    then have "observing (useInView_notify opts entry h)"
      and "\<not> inView (useInView_notify opts entry h)"
      using Cons.prems by (simp_all add: useInView_notify_def)
    then show ?thesis
      using False Cons.IH by simp
  qed
qed

lemma entrances_all_visible:
  "hidden \<noteq> visible \<Longrightarrow> entrances hidden visible (replicate n visible) = 0"
proof (induction n)
  case 0
  then show ?case by simp
next
  case (Suc n)
  then show ?case by (cases n) simp_all
qed

lemma entrances_hidden_then_visible:
  assumes "hidden \<noteq> visible"
  shows "entrances hidden visible (replicate (Suc k) hidden @ replicate n visible)
           = (if n = 0 then 0 else 1)"
proof (induction k)
  case 0
  show ?case
  proof (cases n)
    case 0
    then show ?thesis by simp
  next
    case (Suc m)
    have "entrances hidden visible (hidden # visible # replicate m visible)
            = 1 + entrances hidden visible (replicate (Suc m) visible)"
      by simp
    also have "\<dots> = 1"
      by (simp only: entrances_all_visible [OF assms])
    finally show ?thesis
      using Suc by simp
  qed
next
  case (Suc k)
  have "entrances hidden visible (replicate (Suc (Suc k)) hidden @ replicate n visible)
          = entrances hidden visible (replicate (Suc k) hidden @ replicate n visible)"
    using assms by simp
  then show ?case using Suc by simp
qed

lemma dropWhile_empty_iff:
  "(length (dropWhile P xs) = 0) = (\<forall>x\<in>set xs. P x)"
  by (induction xs) simp_all

lemma renders_once:
  assumes "triggerOnce opts" and "animate False \<noteq> animate True"
    and "renders = map animate (inView useInView_initial # useInView_run opts entries useInView_initial)"
  shows "renders =
           replicate (Suc (length (takeWhile (\<lambda>e. \<not> above_threshold opts e) entries))) (animate False) @
           replicate (length (dropWhile (\<lambda>e. \<not> above_threshold opts e) entries)) (animate True)"
    and "entrances (animate False) (animate True) renders =
           (if \<exists>e\<in>set entries. above_threshold opts e then 1 else 0)"
proof -
  have o: "observing useInView_initial" and i: "\<not> inView useInView_initial"
    by (simp_all add: useInView_initial_def)
  show r: "renders =
           replicate (Suc (length (takeWhile (\<lambda>e. \<not> above_threshold opts e) entries))) (animate False) @
           replicate (length (dropWhile (\<lambda>e. \<not> above_threshold opts e) entries)) (animate True)"
    unfolding assms(3) using i
    by (simp add: useInView_run_once [OF assms(1) o])
  show "entrances (animate False) (animate True) renders =
           (if \<exists>e\<in>set entries. above_threshold opts e then 1 else 0)"
    unfolding r entrances_hidden_then_visible [OF assms(2)]
    using dropWhile_empty_iff [of "\<lambda>e. \<not> above_threshold opts e" entries]
    by auto
qed

text \<open>
  Claim C9. Whatever the sequence of intersection notifications (scrolls past the
  threshold and back), an animated section and a feature card are rendered hidden up
  to the first notification at or above the visibility threshold and visible from
  then on: the change from hidden to visible happens exactly once if the threshold is
  ever crossed, at the first crossing, and never again.
\<close>

theorem entrance_animation_plays_once:
  "AnimatedSection entries =
     replicate (Suc (length (takeWhile (\<lambda>e. \<not> above_threshold AnimatedSection_options e) entries)))
       \<lparr>opacity = 0, y = 50\<rparr> @
     replicate (length (dropWhile (\<lambda>e. \<not> above_threshold AnimatedSection_options e) entries))
       \<lparr>opacity = 1, y = 0\<rparr> \<and>
   entrances \<lparr>opacity = 0, y = 50\<rparr> \<lparr>opacity = 1, y = 0\<rparr> (AnimatedSection entries) =
     (if \<exists>e\<in>set entries. above_threshold AnimatedSection_options e then 1 else 0) \<and>
   FeatureCard entries =
     replicate (Suc (length (takeWhile (\<lambda>e. \<not> above_threshold FeatureCard_options e) entries)))
       \<lparr>opacity = 0, y = 20\<rparr> @
     replicate (length (dropWhile (\<lambda>e. \<not> above_threshold FeatureCard_options e) entries))
       \<lparr>opacity = 1, y = 0\<rparr> \<and>
   entrances \<lparr>opacity = 0, y = 20\<rparr> \<lparr>opacity = 1, y = 0\<rparr> (FeatureCard entries) =
     (if \<exists>e\<in>set entries. above_threshold FeatureCard_options e then 1 else 0)"
proof -
  have a: "triggerOnce AnimatedSection_options" by (simp add: AnimatedSection_options_def)
  have f: "triggerOnce FeatureCard_options" by (simp add: FeatureCard_options_def)
  have an: "AnimatedSection_animate False \<noteq> AnimatedSection_animate True"
    by (simp add: AnimatedSection_animate_def)
  have fn: "FeatureCard_animate False \<noteq> FeatureCard_animate True"
    by (simp add: FeatureCard_animate_def)
  have av: "AnimatedSection_animate False = \<lparr>opacity = 0, y = 50\<rparr>"
    "AnimatedSection_animate True = \<lparr>opacity = 1, y = 0\<rparr>"
    by (simp_all add: AnimatedSection_animate_def)
  have fv: "FeatureCard_animate False = \<lparr>opacity = 0, y = 20\<rparr>"
    "FeatureCard_animate True = \<lparr>opacity = 1, y = 0\<rparr>"
    by (simp_all add: FeatureCard_animate_def)
  show ?thesis
    using renders_once [OF a an AnimatedSection_def] renders_once [OF f fn FeatureCard_def]
    unfolding av fv by simp
qed

theorem entrance_animation_plays_once_witness:
  "AnimatedSection
     [\<lparr>isIntersecting = True, intersectionRatio = 1 / 20\<rparr>,
      \<lparr>isIntersecting = True, intersectionRatio = 1 / 2\<rparr>,
      \<lparr>isIntersecting = False, intersectionRatio = 0\<rparr>,
      \<lparr>isIntersecting = True, intersectionRatio = 1\<rparr>]
   = [\<lparr>opacity = 0, y = 50\<rparr>, \<lparr>opacity = 0, y = 50\<rparr>, \<lparr>opacity = 1, y = 0\<rparr>,
      \<lparr>opacity = 1, y = 0\<rparr>, \<lparr>opacity = 1, y = 0\<rparr>] \<and>
   entrances \<lparr>opacity = 0, y = 50\<rparr> \<lparr>opacity = 1, y = 0\<rparr>
     (AnimatedSection
       [\<lparr>isIntersecting = True, intersectionRatio = 1 / 20\<rparr>,
        \<lparr>isIntersecting = True, intersectionRatio = 1 / 2\<rparr>,
        \<lparr>isIntersecting = False, intersectionRatio = 0\<rparr>,
        \<lparr>isIntersecting = True, intersectionRatio = 1\<rparr>]) = 1"
  using entrance_animation_plays_once
          [of "[\<lparr>isIntersecting = True, intersectionRatio = 1 / 20\<rparr>,
                \<lparr>isIntersecting = True, intersectionRatio = 1 / 2\<rparr>,
                \<lparr>isIntersecting = False, intersectionRatio = 0\<rparr>,
                \<lparr>isIntersecting = True, intersectionRatio = 1\<rparr>]"]
  by (simp add: above_threshold_def AnimatedSection_options_def FeatureCard_options_def)

end
